theory Spec2Isabelle
  imports Complex_Main
begin

section \<open>JavaScript string primitives used by the web layer\<close>

text \<open>
  The web layer (\<^verbatim>\<open>web/lib/repo.ts\<close>, \<^verbatim>\<open>web/lib/server/live-pnl.ts\<close>,
  \<^verbatim>\<open>web/app/api/market/watchlist/route.ts\<close>) works on strings with
  \<^verbatim>\<open>String.prototype.trim\<close> and \<^verbatim>\<open>String.prototype.split\<close>. A string is
  modelled as a \<open>char list\<close>; the characters are read as the code points below 256, so
  the white space of ECMAScript that lies in this range is TAB, LF, VT, FF, CR, SPACE and
  NBSP.
\<close>

definition is_ws :: "char \<Rightarrow> bool" where
  "is_ws c \<longleftrightarrow>
     c = CHR 0x09 \<or> c = CHR 0x0A \<or> c = CHR 0x0B \<or> c = CHR 0x0C \<or> c = CHR 0x0D \<or>
     c = CHR 0x20 \<or> c = CHR 0xA0"

text \<open>\<^verbatim>\<open>s.trimEnd()\<close>, \<^verbatim>\<open>s.trim()\<close>.\<close>

definition trimEnd :: "string \<Rightarrow> string" where
  "trimEnd s = rev (dropWhile is_ws (rev s))"

definition trim :: "string \<Rightarrow> string" where
  "trim s = trimEnd (dropWhile is_ws s)"

text \<open>
  \<^verbatim>\<open>s.split(",")\<close> with a one-character separator \<open>d\<close>: the fields between the
  separators, in order; the empty string gives one empty field. A character that is no
  separator goes in front of the first field of the rest (the rest always has a first
  field, so the \<open>[]\<close> branch of the \<open>case\<close> is never taken).
\<close>

fun split_on :: "char \<Rightarrow> string \<Rightarrow> string list" where
  "split_on d [] = [[]]"
| "split_on d (c # cs) =
     (if c = d then [] # split_on d cs
      else (case split_on d cs of [] \<Rightarrow> [[c]] | f # fs \<Rightarrow> (c # f) # fs))"

text \<open>
  \<^verbatim>\<open>s.split(/\r?\n/)\<close>: a line ends at LF, and a CR right before that LF belongs to
  the separator; a CR elsewhere stays in its line.
\<close>

fun split_lines :: "string \<Rightarrow> string list" where
  "split_lines [] = [[]]"
| "split_lines [c] = (if c = CHR 0x0A then [[], []] else [[c]])"
| "split_lines (c # c' # cs) =
     (if c = CHR 0x0A then [] # split_lines (c' # cs)
      else if c = CHR 0x0D \<and> c' = CHR 0x0A then [] # split_lines cs
      else (case split_lines (c' # cs) of [] \<Rightarrow> [[c]] | l # ls \<Rightarrow> (c # l) # ls))"

text \<open>\<^verbatim>\<open>values[idx] ?? ""\<close>: an index past the end reads \<^verbatim>\<open>undefined\<close>.\<close>

definition nth_or_empty :: "string list \<Rightarrow> nat \<Rightarrow> string" where
  "nth_or_empty values idx = (if idx < length values then values ! idx else [])"

text \<open>
  \<^verbatim>\<open>Number(s)\<close> on a string strips white space on both sides and reads the rest as
  a numeric literal (the empty string as 0, anything else that is no literal as NaN).
  The reading of the stripped literal is the parameter \<open>lit\<close>, into the number type
  \<open>'n\<close>; \<^verbatim>\<open>Number(undefined)\<close> is NaN, the parameter \<open>nan\<close>.
\<close>

definition Number :: "(string \<Rightarrow> 'n) \<Rightarrow> string \<Rightarrow> 'n" where
  "Number lit s = lit (trim s)"

definition Number_opt :: "(string \<Rightarrow> 'n) \<Rightarrow> 'n \<Rightarrow> string option \<Rightarrow> 'n" where
  "Number_opt lit nan v = (case v of None \<Rightarrow> nan | Some s \<Rightarrow> Number lit s)"

section \<open>Market watchlist route\<close>

text \<open>
  \<^verbatim>\<open>web/lib/server/yahoo\<close>, \<^verbatim>\<open>fetchQuote\<close>: the quote of the Yahoo client, and
  \<^verbatim>\<open>null\<close> (here \<open>None\<close>) when the client throws. The client is the parameter
  \<open>yahoo\<close>.
\<close>

datatype fetch_error = FetchError string

definition fetchQuote :: "(string \<Rightarrow> fetch_error + 'q) \<Rightarrow> string \<Rightarrow> 'q option" where
  "fetchQuote yahoo symbol = (case yahoo symbol of Inl e \<Rightarrow> None | Inr q \<Rightarrow> Some q)"

datatype 'q json_body =
    ErrorBody string
  | Payload "(string \<times> 'q option) list"

record 'q response =
  status :: nat
  body :: "'q json_body"

text \<open>
  \<^verbatim>\<open>GET\<close> of \<^verbatim>\<open>web/app/api/market/watchlist/route.ts\<close>. The argument is what
  \<^verbatim>\<open>searchParams.get("symbols")\<close> returns: \<open>None\<close> for \<^verbatim>\<open>null\<close> (no such
  parameter), \<open>Some s\<close> for its value. \<^verbatim>\<open>!symbolsParam\<close> holds for \<^verbatim>\<open>null\<close> and
  for the empty string. \<^verbatim>\<open>filter(Boolean)\<close> keeps the non-empty strings.
  \<^verbatim>\<open>quotes[idx]\<close> is read inside the range of \<^verbatim>\<open>quotes\<close>, which is as long as
  \<^verbatim>\<open>symbols\<close>; the model reads \<^verbatim>\<open>null\<close> outside.
\<close>

definition GET :: "(string \<Rightarrow> fetch_error + 'q) \<Rightarrow> string option \<Rightarrow> 'q response" where
  "GET yahoo symbolsParam =
     (case symbolsParam of
        None \<Rightarrow> \<lparr>status = 400, body = ErrorBody ''symbols is required''\<rparr>
      | Some p \<Rightarrow>
          if p = [] then \<lparr>status = 400, body = ErrorBody ''symbols is required''\<rparr>
          else
            let symbols = filter (\<lambda>s. s \<noteq> []) (map trim (split_on CHR '','' p));
                quotes = map (fetchQuote yahoo) symbols;
                payload = map (\<lambda>(idx, symbol).
                                 (symbol, if idx < length quotes then quotes ! idx else None))
                              (enumerate 0 symbols)
            in \<lparr>status = 200, body = Payload payload\<rparr>)"

section \<open>Alpaca snapshot\<close>

type_synonym env = "string \<rightharpoonup> string"

record AlpacaClient =
  keyId :: string
  secretKey :: string
  paper :: bool
  baseUrl :: string

text \<open>
  \<^verbatim>\<open>haystack.includes(needle)\<close>, here \<open>str_includes\<close>: \<open>needle\<close> occurs in
  \<open>haystack\<close>.
\<close>

fun starts_with :: "string \<Rightarrow> string \<Rightarrow> bool" where
  "starts_with s [] = True"
| "starts_with [] (n # ns) = False"
| "starts_with (c # cs) (n # ns) = (c = n \<and> starts_with cs ns)"

fun str_includes :: "string \<Rightarrow> string \<Rightarrow> bool" where
  "str_includes [] needle = (needle = [])"
| "str_includes (c # cs) needle = (starts_with (c # cs) needle \<or> str_includes cs needle)"

text \<open>
  \<^verbatim>\<open>getAlpacaClient\<close> of \<^verbatim>\<open>web/lib/server/alpaca.ts\<close>. \<^verbatim>\<open>process.env\<close> is the
  map \<open>env\<close>; \<^verbatim>\<open>!keyId\<close> holds for an unset variable and for an empty one, and
  \<^verbatim>\<open>a || b\<close> takes \<open>b\<close> in the same two cases.
\<close>

definition or_else :: "string option \<Rightarrow> string \<Rightarrow> string" where
  "or_else v d = (case v of None \<Rightarrow> d | Some s \<Rightarrow> if s = [] then d else s)"

definition getAlpacaClient :: "env \<Rightarrow> AlpacaClient option" where
  "getAlpacaClient e =
     (case (e ''ALPACA_API_KEY_ID'', e ''ALPACA_API_SECRET_KEY'') of
        (Some k, Some s) \<Rightarrow>
          if k = [] \<or> s = [] then None
          else
            let url = or_else (e ''ALPACA_BASE_URL'') ''https://paper-api.alpaca.markets''
            in Some \<lparr>keyId = k, secretKey = s, paper = str_includes url ''paper'',
                      baseUrl = url\<rparr>
      | _ \<Rightarrow> None)"

text \<open>
  The four calls of the broker client that \<^verbatim>\<open>fetchAlpacaSnapshot\<close> makes, each
  resolved (\<open>Inr\<close>) or rejected (\<open>Inl\<close>). \<^verbatim>\<open>getOrders\<close> is called with the fixed
  query \<^verbatim>\<open>{status: 'open', direction: 'desc', nested: true, limit: 50}\<close>.
\<close>

datatype broker_error = BrokerError string

record ('a, 'p, 'o, 'c) broker =
  getAccount :: "broker_error + 'a"
  getPositions :: "broker_error + 'p list"
  getOrders :: "broker_error + 'o list"
  getClock :: "broker_error + 'c"

record ('a, 'p, 'o, 'c) AlpacaSnapshot =
  account :: "'a option"
  positions :: "'p list"
  openOrders :: "'o list"
  clock :: "'c option"

text \<open>\<^verbatim>\<open>promise.catch(() => fallback)\<close>.\<close>

definition catch_default :: "'e + 'v \<Rightarrow> 'v \<Rightarrow> 'v" where
  "catch_default r fallback = (case r of Inl e \<Rightarrow> fallback | Inr v \<Rightarrow> v)"

definition fetchAlpacaSnapshot ::
  "env \<Rightarrow> (AlpacaClient \<Rightarrow> ('a, 'p, 'o, 'c) broker) \<Rightarrow> ('a, 'p, 'o, 'c) AlpacaSnapshot" where
  "fetchAlpacaSnapshot e api =
     (case getAlpacaClient e of
        None \<Rightarrow> \<lparr>account = None, positions = [], openOrders = [], clock = None\<rparr>
      | Some client \<Rightarrow>
          \<lparr>account = catch_default (map_sum id Some (getAccount (api client))) None,
           positions = catch_default (getPositions (api client)) [],
           openOrders = catch_default (getOrders (api client)) [],
           clock = catch_default (map_sum id Some (getClock (api client))) None\<rparr>)"

section \<open>CSV readers of the web layer\<close>

text \<open>
  \<^verbatim>\<open>fs.readFile(path, "utf8")\<close> resolves with the text of the file (\<open>Inr\<close>) or
  rejects with a file-system error (\<open>Inl\<close>); the \<^verbatim>\<open>try\<close>/\<^verbatim>\<open>catch\<close> of the
  readers turns every rejection into the empty list.
\<close>

datatype fs_error = FsError string

text \<open>
  \<^verbatim>\<open>headers.forEach((key, idx) => { record[key] = values[idx] ?? "" })\<close>: the object
  \<^verbatim>\<open>record\<close> as a map from keys to strings, filled from left to right, so that a
  key that occurs twice in the header keeps the value of its last column.
\<close>

definition row_record :: "string list \<Rightarrow> string list \<Rightarrow> (string \<rightharpoonup> string)" where
  "row_record headers values =
     fold (\<lambda>(idx, key) entry. entry(key \<mapsto> nth_or_empty values idx))
          (enumerate 0 headers) Map.empty"

text \<open>\<^verbatim>\<open>v ?? d\<close> on a value that may be \<^verbatim>\<open>undefined\<close>.\<close>

definition nullish :: "string option \<Rightarrow> string \<Rightarrow> string" where
  "nullish v d = (case v of None \<Rightarrow> d | Some s \<Rightarrow> s)"

text \<open>
  \<^verbatim>\<open>LivePnlRow\<close> and \<^verbatim>\<open>readLivePnl\<close> of \<^verbatim>\<open>web/lib/server/live-pnl.ts\<close>. A string
  field of the result is \<^verbatim>\<open>undefined\<close> (\<open>None\<close>) when the header has no column of
  that name.
\<close>

record 'n LivePnlRow =
  timestamp :: "string option"
  equity :: 'n
  cash :: 'n

definition readLivePnl :: "(string \<Rightarrow> 'n) \<Rightarrow> fs_error + string \<Rightarrow> 'n LivePnlRow list" where
  "readLivePnl lit file =
     (case file of
        Inl e \<Rightarrow> []
      | Inr raw \<Rightarrow>
          (case split_lines (trim raw) of
             [] \<Rightarrow> []
           | headerLine # rows \<Rightarrow>
               if headerLine = [] then []
               else
                 let headers = split_on CHR '','' headerLine
                 in map (\<lambda>row.
                      let values = split_on CHR '','' row;
                          entry = row_record headers values
                      in \<lparr>timestamp = entry ''timestamp'',
                          equity = Number lit (nullish (entry ''equity'') ''0''),
                          cash = Number lit (nullish (entry ''cash'') ''0'')\<rparr>) rows))"

text \<open>\<^verbatim>\<open>TradeLogRow\<close> and \<^verbatim>\<open>readTradesCsv\<close> of \<^verbatim>\<open>web/lib/repo.ts\<close>.\<close>

record 'n TradeLogRow =
  date :: "string option"
  symbol :: "string option"
  quantity :: 'n
  price :: 'n
  notional :: 'n
  sleeve :: "string option"

definition readTradesCsv ::
  "(string \<Rightarrow> 'n) \<Rightarrow> 'n \<Rightarrow> fs_error + string \<Rightarrow> 'n TradeLogRow list" where
  "readTradesCsv lit nan file =
     (case file of
        Inl e \<Rightarrow> []
      | Inr raw \<Rightarrow>
          (case split_lines (trim raw) of
             [] \<Rightarrow> []
           | headerLine # rows \<Rightarrow>
               let headers = split_on CHR '','' headerLine
               in map (\<lambda>row.
                    let values = split_on CHR '','' row;
                        entry = row_record headers values
                    in \<lparr>date = entry ''date'',
                        symbol = entry ''symbol'',
                        quantity = Number_opt lit nan (entry ''quantity''),
                        price = Number_opt lit nan (entry ''price''),
                        notional = Number_opt lit nan (entry ''notional''),
                        sleeve = entry ''sleeve''\<rparr>) rows))"

text \<open>
  What the readers are compared with. \<open>last_column headers values key\<close> is the cell
  of the last column whose header is \<open>key\<close> (the empty string when the row is too
  short to have that cell), and nothing when no column has that header.
  \<open>live_row lit r\<close> is the record the claim about \<^verbatim>\<open>readLivePnl\<close> describes for a data
  row \<open>r\<close>: its first field, and the numbers read from its second and third fields.
\<close>

definition last_column :: "string list \<Rightarrow> string list \<Rightarrow> string \<Rightarrow> string option" where
  "last_column headers values key =
     map_of (rev (zip headers (map (nth_or_empty values) [0..<length headers]))) key"

definition live_row :: "(string \<Rightarrow> 'n) \<Rightarrow> string \<Rightarrow> 'n LivePnlRow" where
  "live_row lit r =
     \<lparr>timestamp = Some (split_on CHR '','' r ! 0),
      equity = Number lit (split_on CHR '','' r ! 1),
      cash = Number lit (split_on CHR '','' r ! 2)\<rparr>"

section \<open>The sizing and backtest core, as the specification describes it\<close>

text \<open>
  The Python package of the engine (\<^verbatim>\<open>src/quantbobe\<close>: regime detection, sizing, cost
  model, backtest loop) is missing from the repository's files; its documentation and
  the web layer are there. The definitions of this section follow the specification and
  the formulas the web pages print, over the real numbers.
\<close>

subsection \<open>Equity curve and log returns\<close>

text \<open>
  Modelled from the spec: the equity update of BacktestEngine, whose code is missing
  from the repository's files. Section 3, EquityPoint:
  \<^verbatim>\<open>equity_t = equity_{t-1} + realized_pnl_t - realized_cost_t\<close>. The curve starts at the
  initial equity and has one more point per day. The log return of a day is
  \<^verbatim>\<open>ln(equity_t / equity_{t-1})\<close>.
\<close>

record day_result =
  realized_pnl :: real
  realized_cost :: real

definition equity_update :: "real \<Rightarrow> day_result \<Rightarrow> real" where
  "equity_update prev d = prev + realized_pnl d - realized_cost d"

fun equity_curve :: "real \<Rightarrow> day_result list \<Rightarrow> real list" where
  "equity_curve e0 [] = [e0]"
| "equity_curve e0 (d # ds) = e0 # equity_curve (equity_update e0 d) ds"

fun log_returns :: "real list \<Rightarrow> real list" where
  "log_returns (prev # cur # es) = ln (cur / prev) # log_returns (cur # es)"
| "log_returns es = []"

subsection \<open>Execution-aware Kelly fraction\<close>




subsection \<open>Regime breadth\<close>

text \<open>
  Modelled from the spec: the breadth of RegimeDetector, whose code is missing from the
  repository's files. Section 3, Bar: symbol, date, open, high, low, close, an optional
  adjusted_close, volume. Section 4.1: breadth is the fraction of the universe whose
  price is above its own trailing moving average, using adjusted_close, and falling back
  to close uniformly across all symbols for a given date if any symbol lacks
  adjusted_close; the detector fails with InsufficientHistoryError when the trailing
  window is shorter than the minimum lookback.

  The trailing window is the list of its dates, oldest first, each date with the bars
  of that date. The universe is the symbols of the latest date. The price series of a
  symbol has one price per date that has a bar of the symbol; a symbol is above its
  trend when its latest price is above the mean of its series. The fraction of an empty
  universe is an error, as the division would be.
\<close>

record bar =
  bar_symbol :: string
  bar_date :: string
  bar_open :: real
  high :: real
  low :: real
  close :: real
  adjusted_close :: "real option"
  volume :: real










section \<open>Properties of the CSV readers\<close>

subsection \<open>Splitting\<close>

lemma split_on_ne [simp]: "split_on d s \<noteq> []"
  by (induction s) (auto split: list.splits)

lemma split_on_append_sep:
  "d \<notin> set a \<Longrightarrow> split_on d (a @ d # b) = a # split_on d b"
  by (induction a) auto

lemma split_on_no_sep: "d \<notin> set a \<Longrightarrow> split_on d a = [a]"
  by (induction a) auto

lemma has_sep: "2 \<le> length (split_on d r) \<Longrightarrow> d \<in> set r"
  using split_on_no_sep[of d r] by fastforce

lemma split_on_decompose:
  "2 \<le> length (split_on d r) \<Longrightarrow> \<exists>a b. r = a @ d # b \<and> d \<notin> set a"
  using has_sep split_list_first by fast

lemma three_fields:
  assumes "3 \<le> length (split_on d r)"
  obtains f0 f1 b where "r = f0 @ d # f1 @ d # b" "d \<notin> set f0" "d \<notin> set f1"
proof -
  from assms have "2 \<le> length (split_on d r)" by simp
  from split_on_decompose[OF this] obtain f0 r1 where r: "r = f0 @ d # r1" "d \<notin> set f0"
    by blast
  then have "split_on d r = f0 # split_on d r1" by (simp add: split_on_append_sep)
  with assms have "2 \<le> length (split_on d r1)" by simp
  from split_on_decompose[OF this] obtain f1 b where "r1 = f1 @ d # b" "d \<notin> set f1"
    by blast
  with r that show thesis by blast
qed

lemma split_lines_ne [simp]: "split_lines s \<noteq> []"
  by (induction s rule: split_lines.induct) (auto split: list.splits)

lemma split_lines_Cons:
  "s \<noteq> [] \<Longrightarrow> split_lines (c # s) =
     (if c = CHR 0x0A then [] # split_lines s
      else if c = CHR 0x0D \<and> hd s = CHR 0x0A then [] # split_lines (tl s)
      else (c # hd (split_lines s)) # tl (split_lines s))"
  by (cases s) (auto split: list.splits)

lemma split_lines_no_LF: "CHR 0x0A \<notin> set l \<Longrightarrow> split_lines l = [l]"
  by (induction l rule: split_lines.induct) auto

lemma split_lines_LF:
  "CHR 0x0A \<notin> set l \<Longrightarrow> CHR 0x0D \<notin> set l \<Longrightarrow>
   split_lines (l @ CHR 0x0A # rest) = l # split_lines rest"
proof (induction l)
  case Nil
  then show ?case by (cases rest) simp_all
next
  case (Cons c l)
  then show ?case by (auto simp add: split_lines_Cons)
qed

lemma split_lines_CRLF:
  "CHR 0x0A \<notin> set l \<Longrightarrow> CHR 0x0D \<notin> set l \<Longrightarrow>
   split_lines (l @ CHR 0x0D # CHR 0x0A # rest) = l # split_lines rest"
proof (induction l)
  case Nil
  then show ?case by simp
next
  case (Cons c l)
  then show ?case by (auto simp add: split_lines_Cons)
qed

lemma split_lines_join:
  "CHR 0x0A \<notin> set l \<Longrightarrow> CHR 0x0D \<notin> set l \<Longrightarrow>
   \<forall>(nl, r) \<in> set rs. (nl = [CHR 0x0A] \<or> nl = [CHR 0x0D, CHR 0x0A]) \<and>
       CHR 0x0A \<notin> set r \<and> CHR 0x0D \<notin> set r \<Longrightarrow>
   split_lines (l @ concat (map (\<lambda>(nl, r). nl @ r) rs)) = l # map snd rs"
proof (induction rs arbitrary: l)
  case Nil
  then show ?case by (simp add: split_lines_no_LF)
next
  case (Cons p rs)
  obtain nl r where p: "p = (nl, r)" by (cases p)
  let ?rest = "r @ concat (map (\<lambda>(nl, r). nl @ r) rs)"
  have ih: "split_lines ?rest = r # map snd rs"
    using Cons.IH[of r] Cons.prems p by simp
  have "nl = [CHR 0x0A] \<or> nl = [CHR 0x0D, CHR 0x0A]" using Cons.prems(3) p by simp
  then show ?case
  proof
    assume "nl = [CHR 0x0A]"
    then show ?thesis
      using ih p Cons.prems(1,2) split_lines_LF[of l ?rest] by simp
  next
    assume "nl = [CHR 0x0D, CHR 0x0A]"
    then show ?thesis
      using ih p Cons.prems(1,2) split_lines_CRLF[of l ?rest] by simp
  qed
qed

lemma live_header:
  "''timestamp,equity,cash'' \<noteq> [] \<and> \<not> is_ws (hd ''timestamp,equity,cash'') \<and>
   trimEnd ''timestamp,equity,cash'' = ''timestamp,equity,cash'' \<and>
   CHR 0x0A \<notin> set ''timestamp,equity,cash'' \<and> CHR 0x0D \<notin> set ''timestamp,equity,cash'' \<and>
   split_on CHR '','' ''timestamp,equity,cash'' = [''timestamp'', ''equity'', ''cash'']"
  by (simp add: is_ws_def trimEnd_def)

subsection \<open>Trimming\<close>

lemma comma_not_ws [simp]: "\<not> is_ws CHR '',''"
  by (simp add: is_ws_def)

lemma trimEnd_all_ws: "\<forall>c \<in> set t. is_ws c \<Longrightarrow> trimEnd (a @ t) = trimEnd a"
  by (simp add: trimEnd_def dropWhile_append)

lemma trimEnd_keep: "\<exists>c \<in> set b. \<not> is_ws c \<Longrightarrow> trimEnd (a @ b) = a @ trimEnd b"
  by (auto simp add: trimEnd_def dropWhile_append)

lemma trimEnd_Cons: "\<not> is_ws x \<Longrightarrow> trimEnd (x # xs) = x # trimEnd xs"
  by (auto simp add: trimEnd_def dropWhile_append)

lemma trimEnd_idem: "trimEnd (trimEnd s) = trimEnd s"
  by (simp add: trimEnd_def)

lemma set_trimEnd: "set (trimEnd s) \<subseteq> set s"
  using set_dropWhileD by (fastforce simp add: trimEnd_def)

lemma dropWhile_trimEnd: "dropWhile is_ws (trimEnd s) = trimEnd (dropWhile is_ws s)"
proof (cases "dropWhile is_ws s")
  case Nil
  then have all: "\<forall>c \<in> set s. is_ws c" by (simp add: dropWhile_eq_Nil_conv)
  then have e: "trimEnd s = []" using trimEnd_all_ws[of s "[]"] by (simp add: trimEnd_def)
  show ?thesis unfolding Nil e by (simp add: trimEnd_def)
next
  case (Cons x xs)
  then have nx: "\<not> is_ws x" by (metis dropWhile_eq_Cons_conv)
  have s: "s = takeWhile is_ws s @ x # xs" using Cons by (metis takeWhile_dropWhile_id)
  have "trimEnd s = takeWhile is_ws s @ trimEnd (x # xs)"
    using nx trimEnd_keep[of "x # xs" "takeWhile is_ws s"] s by auto
  also have "\<dots> = takeWhile is_ws s @ x # trimEnd xs" using nx by (simp add: trimEnd_Cons)
  finally have "dropWhile is_ws (trimEnd s) = x # trimEnd xs"
    using nx by (simp add: dropWhile_append3 dropWhile_append) (metis dropWhile_append2 dropWhile.simps(2) set_takeWhileD)
  then show ?thesis using Cons nx by (simp add: trimEnd_Cons)
qed

lemma trim_trimEnd: "trim (trimEnd s) = trim s"
  by (simp add: trim_def dropWhile_trimEnd trimEnd_idem)

lemma trimEnd_sep: "trimEnd (a @ CHR '','' # b) = a @ CHR '','' # trimEnd b"
proof -
  have "trimEnd (a @ CHR '','' # b) = a @ trimEnd (CHR '','' # b)"
    by (rule trimEnd_keep) auto
  then show ?thesis by (simp add: trimEnd_Cons)
qed

lemma trim_text:
  assumes H: "H \<noteq> []" "\<not> is_ws (hd H)" "trimEnd H = H"
      and rows: "\<forall>(nl, r) \<in> set rows. 3 \<le> length (split_on CHR '','' r)"
      and tail: "\<forall>c \<in> set tail. is_ws c"
  shows "trim (H @ concat (map (\<lambda>(nl, r). nl @ r) rows) @ tail) =
         H @ concat (map (\<lambda>(nl, r). nl @ r)
             (if rows = [] then []
              else butlast rows @ [(fst (last rows), trimEnd (snd (last rows)))]))"
proof -
  let ?body = "concat (map (\<lambda>(nl, r). nl @ r) rows)"
  have "dropWhile is_ws (H @ ?body @ tail) = H @ ?body @ tail"
    using H(1,2) by (cases H) simp_all
  then have "trim (H @ ?body @ tail) = trimEnd ((H @ ?body) @ tail)"
    by (simp only: trim_def append_assoc)
  also have "\<dots> = trimEnd (H @ ?body)"
    using tail by (rule trimEnd_all_ws)
  also have "\<dots> = H @ concat (map (\<lambda>(nl, r). nl @ r)
             (if rows = [] then []
              else butlast rows @ [(fst (last rows), trimEnd (snd (last rows)))]))"
  proof (cases "rows = []")
    case True
    then show ?thesis using H(3) by simp
  next
    case False
    obtain nl r where lr: "last rows = (nl, r)" by (cases "last rows")
    have split: "rows = butlast rows @ [(nl, r)]" using False lr by (metis append_butlast_last_id)
    have "(nl, r) \<in> set rows" using False lr by (metis last_in_set)
    with rows have "2 \<le> length (split_on CHR '','' r)" by fastforce
    then have "CHR '','' \<in> set r" by (rule has_sep)
    then have keep: "\<exists>c \<in> set r. \<not> is_ws c" using comma_not_ws by blast
    have "?body = concat (map (\<lambda>(nl, r). nl @ r) (butlast rows)) @ nl @ r"
      by (subst (1) split) simp
    then have "H @ ?body = (H @ concat (map (\<lambda>(nl, r). nl @ r) (butlast rows)) @ nl) @ r"
      by simp
    then have "trimEnd (H @ ?body) =
        (H @ concat (map (\<lambda>(nl, r). nl @ r) (butlast rows)) @ nl) @ trimEnd r"
      using trimEnd_keep[OF keep] by (simp only:)
    with False lr show ?thesis by simp
  qed
  finally show ?thesis .
qed

subsection \<open>One row of the live PnL file\<close>

lemma row_record_live:
  "row_record [''timestamp'', ''equity'', ''cash''] vs =
     [''timestamp'' \<mapsto> nth_or_empty vs 0, ''equity'' \<mapsto> nth_or_empty vs 1,
      ''cash'' \<mapsto> nth_or_empty vs 2]"
  by (simp add: row_record_def numeral_2_eq_2)

lemma Number_hd_trimEnd:
  "Number lit (hd (split_on CHR '','' (trimEnd b))) = Number lit (hd (split_on CHR '','' b))"
proof (cases "CHR '','' \<in> set b")
  case True
  then obtain f c where b: "b = f @ CHR '','' # c" "CHR '','' \<notin> set f"
    by (meson split_list_first)
  then show ?thesis by (simp add: trimEnd_sep split_on_append_sep)
next
  case False
  then have "CHR '','' \<notin> set (trimEnd b)" using set_trimEnd by blast
  with False show ?thesis
    by (simp add: split_on_no_sep Number_def trim_trimEnd)
qed

lemma live_row_trimEnd:
  assumes "3 \<le> length (split_on CHR '','' r)"
  shows "3 \<le> length (split_on CHR '','' (trimEnd r)) \<and> live_row lit (trimEnd r) = live_row lit r"
proof -
  from assms obtain f0 f1 b where
    r: "r = f0 @ CHR '','' # f1 @ CHR '','' # b" "CHR '','' \<notin> set f0" "CHR '','' \<notin> set f1"
    by (rule three_fields)
  have t: "trimEnd r = f0 @ CHR '','' # f1 @ CHR '','' # trimEnd b"
    using trimEnd_sep[of "f0 @ CHR '','' # f1" b] r(1) by simp
  have s: "split_on CHR '','' r = f0 # f1 # split_on CHR '','' b"
    using r by (simp add: split_on_append_sep)
  have s': "split_on CHR '','' (trimEnd r) = f0 # f1 # split_on CHR '','' (trimEnd b)"
    using r(2,3) unfolding t by (simp add: split_on_append_sep)
  have n: "\<And>x. split_on CHR '','' x ! 0 = hd (split_on CHR '','' x)"
    by (simp add: hd_conv_nth)
  show ?thesis
    using Number_hd_trimEnd[of lit b]
    by (cases "split_on CHR '','' (trimEnd b)")
       (simp_all add: live_row_def s s' n numeral_2_eq_2 numeral_3_eq_3)
qed

lemma code_row_eq:
  assumes "3 \<le> length (split_on CHR '','' r)"
  shows "\<lparr>timestamp = row_record [''timestamp'', ''equity'', ''cash''] (split_on CHR '','' r) ''timestamp'',
          equity = Number lit (nullish (row_record [''timestamp'', ''equity'', ''cash''] (split_on CHR '','' r) ''equity'') ''0''),
          cash = Number lit (nullish (row_record [''timestamp'', ''equity'', ''cash''] (split_on CHR '','' r) ''cash'') ''0'')\<rparr>
         = live_row lit r"
  using assms by (simp add: row_record_live nullish_def nth_or_empty_def live_row_def)

lemma readLivePnl_lines:
  assumes "split_lines (trim raw) = H # rows'" "H \<noteq> []"
    "split_on CHR '','' H = [''timestamp'', ''equity'', ''cash'']"
    "\<forall>r \<in> set rows'. 3 \<le> length (split_on CHR '','' r)"
  shows "readLivePnl lit (Inr raw) = map (live_row lit) rows'"
proof -
  have "readLivePnl lit (Inr raw) =
        map (\<lambda>r. \<lparr>timestamp = row_record [''timestamp'', ''equity'', ''cash''] (split_on CHR '','' r) ''timestamp'',
          equity = Number lit (nullish (row_record [''timestamp'', ''equity'', ''cash''] (split_on CHR '','' r) ''equity'') ''0''),
          cash = Number lit (nullish (row_record [''timestamp'', ''equity'', ''cash''] (split_on CHR '','' r) ''cash'') ''0'')\<rparr>) rows'"
    unfolding readLivePnl_def sum.case assms(1) list.case assms(3) Let_def
    using assms(2) by (simp only: if_False)
  also have "\<dots> = map (live_row lit) rows'"
    by (rule map_cong[OF refl]) (use assms(4) in \<open>simp only: code_row_eq\<close>)
  finally show ?thesis .
qed

subsection \<open>The record of a row\<close>

lemma upd_then_add: "m ++ ([h \<mapsto> v] ++ M) = m(h \<mapsto> v) ++ M"
  by (rule ext) (simp add: map_add_def split: option.splits)

lemma fold_columns:
  "fold (\<lambda>(idx, key) entry. entry(key \<mapsto> g idx)) (enumerate n hs) m =
   m ++ map_of (rev (zip hs (map g [n..<n + length hs])))"
proof (induction hs arbitrary: n m)
  case Nil
  then show ?case by simp
next
  case (Cons h hs)
  let ?f = "\<lambda>(idx, key) entry. entry(key \<mapsto> g idx)"
  have u: "[n..<n + length (h # hs)] = n # [Suc n..<Suc n + length hs]"
    by (simp add: upt_conv_Cons del: upt_Suc)
  have "fold ?f (enumerate n (h # hs)) m = fold ?f (enumerate (Suc n) hs) (m(h \<mapsto> g n))"
    by simp
  also have "\<dots> = m(h \<mapsto> g n) ++ map_of (rev (zip hs (map g [Suc n..<Suc n + length hs])))"
    by (rule Cons.IH)
  also have "\<dots> = m ++ map_of (rev (zip (h # hs) (map g [n..<n + length (h # hs)])))"
    unfolding u by (simp add: upd_then_add del: upt_Suc)
  finally show ?case .
qed

lemma row_record_last_column: "row_record headers values key = last_column headers values key"
  using fold_columns[of "nth_or_empty values" 0 headers Map.empty]
  by (simp add: row_record_def last_column_def)

subsection \<open>The rows of the live PnL file\<close>

text \<open>
  Claim C6. A CSV text is the header line \<^verbatim>\<open>timestamp,equity,cash\<close> followed by \<open>n\<close>
  data rows, each after a line break (LF or CR LF), and then any white space, such as
  the final line break. A data row holds no line break and has
  at least three comma-separated fields. For every such text \<^verbatim>\<open>readLivePnl\<close> returns
  exactly one record per data row, in the order of the rows; the record's timestamp is
  the first field of its row, and its equity and cash are \<^verbatim>\<open>Number\<close> of the second and
  of the third field.
\<close>

theorem readLivePnl_rows:
  assumes rows: "\<forall>(nl, r) \<in> set rows.
                   (nl = [CHR 0x0A] \<or> nl = [CHR 0x0D, CHR 0x0A]) \<and>
                   CHR 0x0A \<notin> set r \<and> CHR 0x0D \<notin> set r \<and>
                   3 \<le> length (split_on CHR '','' r)"
      and tail: "\<forall>c \<in> set tail. is_ws c"
  shows "readLivePnl lit
           (Inr (''timestamp,equity,cash'' @ concat (map (\<lambda>(nl, r). nl @ r) rows) @ tail)) =
         map (\<lambda>(nl, r). \<lparr>timestamp = Some (split_on CHR '','' r ! 0),
                    equity = Number lit (split_on CHR '','' r ! 1),
                    cash = Number lit (split_on CHR '','' r ! 2)\<rparr>) rows"
proof -
  define H where "H = ''timestamp,equity,cash''"
  have H: "H \<noteq> []" "\<not> is_ws (hd H)" "trimEnd H = H" "CHR 0x0A \<notin> set H" "CHR 0x0D \<notin> set H"
    "split_on CHR '','' H = [''timestamp'', ''equity'', ''cash'']"
    unfolding H_def using live_header by simp_all
  define rows' where
    "rows' = (if rows = [] then []
              else butlast rows @ [(fst (last rows), trimEnd (snd (last rows)))])"
  have three: "\<forall>(nl, r) \<in> set rows. 3 \<le> length (split_on CHR '','' r)" using rows by blast
  have t: "trim (H @ concat (map (\<lambda>(nl, r). nl @ r) rows) @ tail) =
           H @ concat (map (\<lambda>(nl, r). nl @ r) rows')"
    unfolding rows'_def using H(1,2,3) three tail by (rule trim_text)
  have last_in: "rows \<noteq> [] \<Longrightarrow> (fst (last rows), snd (last rows)) \<in> set rows" by simp
  have cases': "(nl, r) \<in> set (butlast rows) \<or>
                (rows \<noteq> [] \<and> nl = fst (last rows) \<and> r = trimEnd (snd (last rows)))"
    if "(nl, r) \<in> set rows'" for nl r
    using that by (auto simp: rows'_def split: if_splits)
  have clean': "\<forall>(nl, r) \<in> set rows'. (nl = [CHR 0x0A] \<or> nl = [CHR 0x0D, CHR 0x0A]) \<and>
                  CHR 0x0A \<notin> set r \<and> CHR 0x0D \<notin> set r"
  proof (clarify, intro conjI)
    fix nl r assume "(nl, r) \<in> set rows'"
    from cases'[OF this]
    have a: "(nl = [CHR 0x0A] \<or> nl = [CHR 0x0D, CHR 0x0A]) \<and>
          CHR 0x0A \<notin> set r \<and> CHR 0x0D \<notin> set r"
    proof
      assume "(nl, r) \<in> set (butlast rows)"
      then have "(nl, r) \<in> set rows" by (rule in_set_butlastD)
      with rows show ?thesis by blast
    next
      assume b: "rows \<noteq> [] \<and> nl = fst (last rows) \<and> r = trimEnd (snd (last rows))"
      with last_in rows have "(nl = [CHR 0x0A] \<or> nl = [CHR 0x0D, CHR 0x0A]) \<and>
          CHR 0x0A \<notin> set (snd (last rows)) \<and> CHR 0x0D \<notin> set (snd (last rows))"
        by blast
      with b show ?thesis using set_trimEnd[of "snd (last rows)"] by blast
    qed
    from a show "nl = [CHR 0x0A] \<or> nl = [CHR 0x0D, CHR 0x0A]" by blast
    from a show "CHR 0x0A \<notin> set r" by blast
    from a show "CHR 0x0D \<notin> set r" by blast
  qed
  have lines: "split_lines (H @ concat (map (\<lambda>(nl, r). nl @ r) rows')) = H # map snd rows'"
    using H(4,5) clean' by (rule split_lines_join)
  have three': "\<forall>r \<in> set (map snd rows'). 3 \<le> length (split_on CHR '','' r)"
  proof
    fix r assume "r \<in> set (map snd rows')"
    then obtain nl where "(nl, r) \<in> set rows'" by auto
    from cases'[OF this] show "3 \<le> length (split_on CHR '','' r)"
    proof
      assume "(nl, r) \<in> set (butlast rows)"
      then have "(nl, r) \<in> set rows" by (rule in_set_butlastD)
      with three show ?thesis by blast
    next
      assume b: "rows \<noteq> [] \<and> nl = fst (last rows) \<and> r = trimEnd (snd (last rows))"
      with last_in three have "3 \<le> length (split_on CHR '','' (snd (last rows)))" by blast
      with b show ?thesis using live_row_trimEnd[of "snd (last rows)"] by blast
    qed
  qed
  have "readLivePnl lit (Inr (H @ concat (map (\<lambda>(nl, r). nl @ r) rows) @ tail)) =
        map (live_row lit) (map snd rows')"
    using lines H(1,6) three' unfolding t[symmetric] by (rule readLivePnl_lines)
  also have "\<dots> = map (live_row lit) (map snd rows)"
  proof (cases "rows = []")
    case True
    then show ?thesis by (simp add: rows'_def)
  next
    case False
    then have "3 \<le> length (split_on CHR '','' (snd (last rows)))"
      using last_in three by blast
    then have "live_row lit (trimEnd (snd (last rows))) = live_row lit (snd (last rows))"
      using live_row_trimEnd[of "snd (last rows)" lit] by blast
    then have "map (live_row lit) (map snd rows') =
               map (live_row lit) (map snd (butlast rows @ [last rows]))"
      using False by (simp add: rows'_def del: append_butlast_last_id)
    then show ?thesis by (simp only: append_butlast_last_id[OF False])
  qed
  also have "\<dots> = map (\<lambda>(nl, r). live_row lit r) rows"
    by (simp add: case_prod_beta comp_def)
  finally show ?thesis unfolding H_def live_row_def .
qed

text \<open>
  An instance: one row after LF and one after CR LF, the last one with blanks around
  its third field. The numbers are shown by the literal that \<^verbatim>\<open>Number\<close> reads
  after stripping.
\<close>

theorem readLivePnl_rows_witness:
  "readLivePnl id
     (Inr (''timestamp,equity,cash'' @ [CHR 0x0A] @ ''2024-01-02T10:00:00,100500.25,2500'' @
           [CHR 0x0D, CHR 0x0A] @ ''2024-01-02T10:01:00,100480, 2490 '' @ [CHR 0x0A])) =
   [\<lparr>timestamp = Some ''2024-01-02T10:00:00'', equity = ''100500.25'', cash = ''2500''\<rparr>,
    \<lparr>timestamp = Some ''2024-01-02T10:01:00'', equity = ''100480'', cash = ''2490''\<rparr>]"
  using readLivePnl_rows[of
      "[([CHR 0x0A], ''2024-01-02T10:00:00,100500.25,2500''),
        ([CHR 0x0D, CHR 0x0A], ''2024-01-02T10:01:00,100480, 2490 '')]"
      "[CHR 0x0A]" id]
  by (simp add: is_ws_def Number_def trim_def trimEnd_def)

subsection \<open>Unreadable files, and the rows of the trade log\<close>

text \<open>
  Claim C8. When the file cannot be read, \<^verbatim>\<open>readTradesCsv\<close> and \<^verbatim>\<open>readLivePnl\<close>
  return the empty list. When the trade log can be read, its trimmed text has a first
  line, the header, and \<^verbatim>\<open>readTradesCsv\<close> returns one record per line after it, in
  order, with the six fields date, symbol, quantity, price, notional and sleeve: each is
  the cell of the row under the column of that name, and quantity, price and notional
  are \<^verbatim>\<open>Number\<close> of their cells.
\<close>

theorem readers_fail_closed_and_trade_rows:
  "readTradesCsv lit nan (Inl err) = [] \<and> readLivePnl lit (Inl err) = [] \<and>
   (\<exists>headerLine rows.
      split_lines (trim raw) = headerLine # rows \<and>
      readTradesCsv lit nan (Inr raw) =
        map (\<lambda>row.
               \<lparr>date = last_column (split_on CHR '','' headerLine) (split_on CHR '','' row) ''date'',
                symbol = last_column (split_on CHR '','' headerLine) (split_on CHR '','' row) ''symbol'',
                quantity = Number_opt lit nan
                  (last_column (split_on CHR '','' headerLine) (split_on CHR '','' row) ''quantity''),
                price = Number_opt lit nan
                  (last_column (split_on CHR '','' headerLine) (split_on CHR '','' row) ''price''),
                notional = Number_opt lit nan
                  (last_column (split_on CHR '','' headerLine) (split_on CHR '','' row) ''notional''),
                sleeve = last_column (split_on CHR '','' headerLine) (split_on CHR '','' row) ''sleeve''\<rparr>)
            rows)"
proof -
  obtain headerLine rows where l: "split_lines (trim raw) = headerLine # rows"
    by (cases "split_lines (trim raw)") simp_all
  have "readTradesCsv lit nan (Inr raw) =
        map (\<lambda>row.
               \<lparr>date = last_column (split_on CHR '','' headerLine) (split_on CHR '','' row) ''date'',
                symbol = last_column (split_on CHR '','' headerLine) (split_on CHR '','' row) ''symbol'',
                quantity = Number_opt lit nan
                  (last_column (split_on CHR '','' headerLine) (split_on CHR '','' row) ''quantity''),
                price = Number_opt lit nan
                  (last_column (split_on CHR '','' headerLine) (split_on CHR '','' row) ''price''),
                notional = Number_opt lit nan
                  (last_column (split_on CHR '','' headerLine) (split_on CHR '','' row) ''notional''),
                sleeve = last_column (split_on CHR '','' headerLine) (split_on CHR '','' row) ''sleeve''\<rparr>)
            rows"
    unfolding readTradesCsv_def sum.case l list.case Let_def row_record_last_column ..
  with l show ?thesis
    by (simp add: readTradesCsv_def readLivePnl_def)
qed

text \<open>
  An instance: a missing file, and a log of two rows whose second row is two cells short.
\<close>

theorem trades_csv_example:
  "readTradesCsv id ''NaN'' (Inl (FsError ''ENOENT'')) = [] \<and>
   readTradesCsv id ''NaN''
     (Inr (''date,symbol,quantity,price,notional,sleeve'' @ [CHR 0x0A] @
           ''2024-01-02,AAPL,10,185.5,1855,xsec'' @ [CHR 0x0A] @
           ''2024-01-03,MSFT,-4,370'' @ [CHR 0x0A])) =
   [\<lparr>date = Some ''2024-01-02'', symbol = Some ''AAPL'', quantity = ''10'', price = ''185.5'',
      notional = ''1855'', sleeve = Some ''xsec''\<rparr>,
    \<lparr>date = Some ''2024-01-03'', symbol = Some ''MSFT'', quantity = ''-4'', price = ''370'',
      notional = '''', sleeve = Some ''''\<rparr>]"
  using readers_fail_closed_and_trade_rows[of id "''NaN''" "FsError ''ENOENT''"
     "''date,symbol,quantity,price,notional,sleeve'' @ [CHR 0x0A] @
           ''2024-01-02,AAPL,10,185.5,1855,xsec'' @ [CHR 0x0A] @
           ''2024-01-03,MSFT,-4,370'' @ [CHR 0x0A]"]
  by (simp add: is_ws_def trim_def trimEnd_def last_column_def nth_or_empty_def
        Number_opt_def Number_def)

section \<open>Properties of the watchlist route\<close>

lemma pair_with_index:
  "map (\<lambda>(idx, x). (x, if idx < length (map f xs) then map f xs ! idx else None)) (enumerate 0 xs)
   = map (\<lambda>x. (x, f x)) xs"
  by (rule nth_equalityI) (simp_all add: nth_enumerate_eq)

lemma GET_payload:
  "p \<noteq> [] \<Longrightarrow> GET yahoo (Some p) =
     \<lparr>status = 200,
      body = Payload (map (\<lambda>s. (s, fetchQuote yahoo s))
                (filter (\<lambda>s. s \<noteq> []) (map trim (split_on CHR '','' p))))\<rparr>"
  unfolding GET_def Let_def
  by (simp only: pair_with_index option.case if_False)

lemma GET_status: "status (GET yahoo p) = 400 \<longleftrightarrow> (p = None \<or> p = Some [])"
  by (cases p) (simp_all add: GET_def Let_def)

text \<open>
  Claim C9 says that the status is 400 if and only if the \<^verbatim>\<open>symbols\<close> parameter is
  absent. A request \<^verbatim>\<open>?symbols=\<close> has the parameter, with the empty string as its
  value, and is answered with status 400 all the same: \<^verbatim>\<open>!symbolsParam\<close> holds for the
  empty string.
\<close>

theorem GET_watchlist_empty_param_counterexample:
  "Some [] \<noteq> (None :: string option) \<and>
   status (GET (Inl \<circ> FetchError :: string \<Rightarrow> fetch_error + unit) (Some [])) = 400"
  by (simp add: GET_def)

text \<open>
  Claim C9, amended. The status is 400 if and only if the \<^verbatim>\<open>symbols\<close> parameter is
  absent or empty. For every other request the status is 200 and the payload has exactly
  one entry per non-empty symbol, after splitting the parameter at the commas and
  trimming each part, in the order of the request; the entry pairs the symbol with its
  quote, which is \<^verbatim>\<open>null\<close> when the quote fetch fails.
\<close>

theorem GET_watchlist:
  "(status (GET yahoo p) = 400 \<longleftrightarrow> p = None \<or> p = Some []) \<and>
   (\<forall>s. p = Some s \<and> s \<noteq> [] \<longrightarrow>
      GET yahoo p =
        \<lparr>status = 200,
         body = Payload (map (\<lambda>x. (x, fetchQuote yahoo x))
                  (filter (\<lambda>x. x \<noteq> []) (map trim (split_on CHR '','' s))))\<rparr>) \<and>
   (\<forall>x. fetchQuote yahoo x = (case yahoo x of Inl e \<Rightarrow> None | Inr q \<Rightarrow> Some q))"
  using GET_status[of yahoo p] GET_payload[of _ yahoo] by (auto simp add: fetchQuote_def)

text \<open>An instance: three parts, one of them empty, and one quote that fails.\<close>

theorem GET_watchlist_witness:
  "status (GET (\<lambda>x. if x = ''AAPL'' then Inr (190::nat) else Inl (FetchError x))
             (Some '' AAPL ,, ES=F'')) \<noteq> 400 \<and>
   GET (\<lambda>x. if x = ''AAPL'' then Inr (190::nat) else Inl (FetchError x))
       (Some '' AAPL ,, ES=F'') =
     \<lparr>status = 200, body = Payload [(''AAPL'', Some 190), (''ES=F'', None)]\<rparr>"
  using GET_watchlist[of "\<lambda>x. if x = ''AAPL'' then Inr (190::nat) else Inl (FetchError x)"
      "Some '' AAPL ,, ES=F''"]
  by (simp add: fetchQuote_def trim_def trimEnd_def is_ws_def)

section \<open>Properties of the Alpaca snapshot\<close>

text \<open>
  Claim C10. When \<^verbatim>\<open>ALPACA_API_KEY_ID\<close> or \<^verbatim>\<open>ALPACA_API_SECRET_KEY\<close> is unset,
  \<^verbatim>\<open>fetchAlpacaSnapshot\<close> returns the snapshot with no account, no positions, no open
  orders and no clock. When both are set and not empty there is a client, and with a
  client every field of the snapshot is the result of its own broker call, or the
  field's default (\<^verbatim>\<open>null\<close>, the empty list) when that call fails, whatever the other
  three calls do.
\<close>

theorem fetchAlpacaSnapshot_defaults:
  "(e ''ALPACA_API_KEY_ID'' = None \<or> e ''ALPACA_API_SECRET_KEY'' = None \<longrightarrow>
      fetchAlpacaSnapshot e api =
        \<lparr>account = None, positions = [], openOrders = [], clock = None\<rparr>) \<and>
   (\<forall>k s. e ''ALPACA_API_KEY_ID'' = Some k \<and> k \<noteq> [] \<and>
          e ''ALPACA_API_SECRET_KEY'' = Some s \<and> s \<noteq> [] \<longrightarrow>
      (\<exists>client. getAlpacaClient e = Some client \<and> keyId client = k \<and> secretKey client = s)) \<and>
   (\<forall>client. getAlpacaClient e = Some client \<longrightarrow>
      account (fetchAlpacaSnapshot e api) =
        (case getAccount (api client) of Inl err \<Rightarrow> None | Inr a \<Rightarrow> Some a) \<and>
      positions (fetchAlpacaSnapshot e api) =
        (case getPositions (api client) of Inl err \<Rightarrow> [] | Inr ps \<Rightarrow> ps) \<and>
      openOrders (fetchAlpacaSnapshot e api) =
        (case getOrders (api client) of Inl err \<Rightarrow> [] | Inr os \<Rightarrow> os) \<and>
      clock (fetchAlpacaSnapshot e api) =
        (case getClock (api client) of Inl err \<Rightarrow> None | Inr c \<Rightarrow> Some c))"
proof (intro conjI allI impI)
  assume "e ''ALPACA_API_KEY_ID'' = None \<or> e ''ALPACA_API_SECRET_KEY'' = None"
  then have "getAlpacaClient e = None"
    by (auto simp add: getAlpacaClient_def split: option.splits)
  then show "fetchAlpacaSnapshot e api =
        \<lparr>account = None, positions = [], openOrders = [], clock = None\<rparr>"
    by (simp add: fetchAlpacaSnapshot_def)
next
  fix k s
  assume "e ''ALPACA_API_KEY_ID'' = Some k \<and> k \<noteq> [] \<and>
          e ''ALPACA_API_SECRET_KEY'' = Some s \<and> s \<noteq> []"
  then show "\<exists>client. getAlpacaClient e = Some client \<and> keyId client = k \<and> secretKey client = s"
    by (simp add: getAlpacaClient_def Let_def)
next
  fix client assume c: "getAlpacaClient e = Some client"
  show "account (fetchAlpacaSnapshot e api) =
        (case getAccount (api client) of Inl err \<Rightarrow> None | Inr a \<Rightarrow> Some a)"
    using c by (simp add: fetchAlpacaSnapshot_def catch_default_def split: sum.splits)
  show "positions (fetchAlpacaSnapshot e api) =
        (case getPositions (api client) of Inl err \<Rightarrow> [] | Inr ps \<Rightarrow> ps)"
    using c by (simp add: fetchAlpacaSnapshot_def catch_default_def split: sum.splits)
  show "openOrders (fetchAlpacaSnapshot e api) =
        (case getOrders (api client) of Inl err \<Rightarrow> [] | Inr os \<Rightarrow> os)"
    using c by (simp add: fetchAlpacaSnapshot_def catch_default_def split: sum.splits)
  show "clock (fetchAlpacaSnapshot e api) =
        (case getClock (api client) of Inl err \<Rightarrow> None | Inr c \<Rightarrow> Some c)"
    using c by (simp add: fetchAlpacaSnapshot_def catch_default_def split: sum.splits)
qed

text \<open>
  An instance: no environment at all, and an environment with both keys where the
  account call fails and the other three succeed.
\<close>

theorem fetchAlpacaSnapshot_defaults_witness:
  "fetchAlpacaSnapshot Map.empty
     (\<lambda>c. \<lparr>getAccount = Inr (1::nat), getPositions = Inr [2::nat], getOrders = Inr [3::nat],
           getClock = Inr (4::nat)\<rparr>) =
     \<lparr>account = None, positions = [], openOrders = [], clock = None\<rparr> \<and>
   fetchAlpacaSnapshot [''ALPACA_API_KEY_ID'' \<mapsto> ''key'', ''ALPACA_API_SECRET_KEY'' \<mapsto> ''secret'']
     (\<lambda>c. \<lparr>getAccount = Inl (BrokerError ''503''), getPositions = Inr [2::nat],
           getOrders = Inr [3::nat], getClock = Inr (4::nat)\<rparr>) =
     \<lparr>account = (None :: nat option), positions = [2], openOrders = [3], clock = Some 4\<rparr>"
  using fetchAlpacaSnapshot_defaults[of Map.empty
     "\<lambda>c. \<lparr>getAccount = Inr (1::nat), getPositions = Inr [2::nat], getOrders = Inr [3::nat],
           getClock = Inr (4::nat)\<rparr>"]
   fetchAlpacaSnapshot_defaults[of
     "[''ALPACA_API_KEY_ID'' \<mapsto> ''key'', ''ALPACA_API_SECRET_KEY'' \<mapsto> ''secret'']"
     "\<lambda>c. \<lparr>getAccount = Inl (BrokerError ''503''), getPositions = Inr [2::nat],
           getOrders = Inr [3::nat], getClock = Inr (4::nat)\<rparr>"]
  by (simp add: fetchAlpacaSnapshot_def getAlpacaClient_def catch_default_def or_else_def)

section \<open>Properties of the core as specified\<close>

subsection \<open>Log returns telescope\<close>

lemma equity_curve_Cons: "\<exists>es. equity_curve e0 ds = e0 # es"
  by (cases ds) simp_all

lemma sum_log_returns:
  "\<forall>e \<in> set (e0 # es). 0 < e \<Longrightarrow> sum_list (log_returns (e0 # es)) = ln (last (e0 # es) / e0)"
proof (induction es arbitrary: e0)
  case Nil
  then show ?case by simp
next
  case (Cons e1 es)
  have "last (e1 # es) \<in> set (e0 # e1 # es)"
    using last_in_set[of "e1 # es"] by simp
  with Cons.prems have pos: "0 < e0" "0 < e1" "0 < last (e1 # es)"
    by (simp, simp, blast)
  have "sum_list (log_returns (e0 # e1 # es)) = ln (e1 / e0) + ln (last (e1 # es) / e1)"
    using Cons.IH[of e1] Cons.prems by simp
  also have "\<dots> = ln (last (e1 # es) / e0)"
    using pos by (simp add: ln_div)
  finally show ?case by simp
qed

text \<open>
  Claim C3. For an equity curve built by the update rule from an initial equity and the
  days' realized PnL and cost, all of whose points are positive, the sum of the log
  returns of the days equals \<^verbatim>\<open>ln(equity_final / equity_initial)\<close>, exactly and so within
  1e-8.
\<close>

theorem log_returns_telescope:
  assumes "\<forall>e \<in> set (equity_curve e0 days). 0 < e"
  shows "sum_list (log_returns (equity_curve e0 days)) = ln (last (equity_curve e0 days) / e0) \<and>
         \<bar>sum_list (log_returns (equity_curve e0 days)) - ln (last (equity_curve e0 days) / e0)\<bar>
           \<le> 1 / 10 ^ 8"
proof -
  obtain es where c: "equity_curve e0 days = e0 # es" using equity_curve_Cons by blast
  have "sum_list (log_returns (e0 # es)) = ln (last (e0 # es) / e0)"
    using assms unfolding c by (rule sum_log_returns)
  then show ?thesis unfolding c by simp
qed

text \<open>An instance: two days from an initial equity of 100.\<close>

theorem log_returns_telescope_witness:
  "equity_curve 100 [\<lparr>realized_pnl = 10, realized_cost = 1\<rparr>, \<lparr>realized_pnl = - 5, realized_cost = 2\<rparr>]
     = [100, 109, 102] \<and>
   ln (109 / 100) + ln (102 / 109) = ln (102 / 100 :: real)"
  using log_returns_telescope[of 100
     "[\<lparr>realized_pnl = 10, realized_cost = 1\<rparr>, \<lparr>realized_pnl = - 5, realized_cost = 2\<rparr>]"]
  by (simp add: equity_update_def)

subsection \<open>Live fraction against the unconstrained Kelly fraction\<close>




subsection \<open>Breadth without adjusted closes\<close>










end
